theory Spec2Isabelle
  imports Complex_Main "HOL-Library.Word"
begin

chapter \<open>Rime voice notes: chunking, silence and assembly\<close>

text \<open>
  The repository holds three command-line programs, \<open>rime.py\<close>, \<open>rime_reader.py\<close> and
  \<open>rime_tts.py\<close>, that turn text into a voice note: they cut a document into chunks or
  take a list of voiced segments, ask a remote service for the PCM audio of each unit, join
  the answers with silence, and have \<open>ffmpeg\<close> encode the result. This theory embeds
  \<open>chunk_text\<close>, \<open>generate_silence\<close>, \<open>pcm_to_ogg\<close> and the three \<open>main\<close> functions
  as HOL functions and proves what they do. A run is a function from the collaborators (the
  environment, the remote service, the encoder) and the parsed arguments to the trace of
  what the program did and the way it ended.
\<close>

section \<open>Python strings\<close>

text \<open>
  A Python \<open>str\<close> is a sequence of Unicode code points, and \<open>len\<close> counts code points.
  A string is therefore a list of code points (natural numbers); \<open>py\<close> turns an ASCII
  literal into such a list, so that \<open>py ''Hi''\<close> is \<open>[72, 105]\<close>.
  The characters the chunker names: space is 32, newline is 10, \<open>.\<close> is 46, \<open>!\<close> is 33
  and \<open>?\<close> is 63.
\<close>

type_synonym pystr = "nat list"

definition py :: "string \<Rightarrow> pystr" where
  "py s = map of_char s"

text \<open>
  \<open>str.isspace\<close> for one code point: the white space of \<open>str.split()\<close> and
  \<open>str.strip()\<close> (tab to carriage return, the separators 28 to 31, space, NEL, no-break
  space, and the Unicode spaces).
\<close>

definition isspace :: "nat \<Rightarrow> bool" where
  "isspace c \<longleftrightarrow>
     (9 \<le> c \<and> c \<le> 13) \<or> (28 \<le> c \<and> c \<le> 32) \<or> c = 133 \<or> c = 160 \<or> c = 5760 \<or>
     (8192 \<le> c \<and> c \<le> 8202) \<or> c = 8232 \<or> c = 8233 \<or> c = 8239 \<or> c = 8287 \<or> c = 12288"

text \<open>
  \<open>s.split()\<close>: the maximal runs of characters that are not white space. \<open>cur\<close> is the
  word being read.
\<close>

fun split_ws :: "pystr \<Rightarrow> pystr \<Rightarrow> pystr list" where
  "split_ws cur [] = (if cur = [] then [] else [cur])"
| "split_ws cur (c # cs) =
     (if isspace c then (if cur = [] then [] else [cur]) @ split_ws [] cs
      else split_ws (cur @ [c]) cs)"

definition str_split :: "pystr \<Rightarrow> pystr list" where
  "str_split s = split_ws [] s"

text \<open>\<open>sep.join(xs)\<close>, for \<open>str\<close> and for \<open>bytes\<close> alike.\<close>

fun str_join :: "'a list \<Rightarrow> 'a list list \<Rightarrow> 'a list" where
  "str_join sep [] = []"
| "str_join sep [x] = x"
| "str_join sep (x # y # ys) = x @ sep @ str_join sep (y # ys)"

text \<open>
  \<open>s.replace(old, new)\<close> and \<open>s.split(sep)\<close> scan from the left and take occurrences
  that do not overlap. Every call in the program has a two-character \<open>old\<close> or \<open>sep\<close>;
  the empty pattern, which Python treats specially, is left alone here.
\<close>

fun str_replace :: "pystr \<Rightarrow> pystr \<Rightarrow> pystr \<Rightarrow> pystr" where
  "str_replace old new [] = []"
| "str_replace old new (c # cs) =
     (if old \<noteq> [] \<and> take (length old) (c # cs) = old
      then new @ str_replace old new (drop (length old - 1) cs)
      else c # str_replace old new cs)"

fun split_sep :: "pystr \<Rightarrow> pystr \<Rightarrow> pystr \<Rightarrow> pystr list" where
  "split_sep sep cur [] = [cur]"
| "split_sep sep cur (c # cs) =
     (if sep \<noteq> [] \<and> take (length sep) (c # cs) = sep
      then cur # split_sep sep [] (drop (length sep - 1) cs)
      else split_sep sep (cur @ [c]) cs)"

definition str_split_sep :: "pystr \<Rightarrow> pystr \<Rightarrow> pystr list" where
  "str_split_sep sep s = split_sep sep [] s"

text \<open>\<open>s.strip()\<close>.\<close>

definition str_strip :: "pystr \<Rightarrow> pystr" where
  "str_strip s = rev (dropWhile isspace (rev (dropWhile isspace s)))"

text \<open>\<open>s.endswith((".", "!", "?"))\<close>.\<close>

definition ends_with_terminator :: "pystr \<Rightarrow> bool" where
  "ends_with_terminator s \<longleftrightarrow> s \<noteq> [] \<and> (last s = 46 \<or> last s = 33 \<or> last s = 63)"

section \<open>The sentence chunker\<close>

text \<open>
  \<open>chunk_text\<close> of \<open>rime.py\<close> and \<open>rime_reader.py\<close> (the two copies are the same code).
  The first statement normalises white space:
  \<^verbatim>\<open>text = " ".join(text.split())\<close>
\<close>

definition normalise :: "pystr \<Rightarrow> pystr" where
  "normalise text = str_join [32] (str_split text)"

text \<open>
  The sentence loop:
  \<^verbatim>\<open>
  for raw in text.replace("! ", ".\n").replace("? ", ".\n").split(".\n"):
      s = raw.strip()
      if s:
          sentences.append(s if s.endswith((".", "!", "?")) else s + ".")
  \<close>
\<close>

fun collect_sentences :: "pystr list \<Rightarrow> pystr list \<Rightarrow> pystr list" where
  "collect_sentences [] sentences = sentences"
| "collect_sentences (raw # raws) sentences =
     (let s = str_strip raw in
      if s \<noteq> []
      then collect_sentences raws (sentences @ [if ends_with_terminator s then s else s @ [46]])
      else collect_sentences raws sentences)"

definition split_sentences :: "pystr \<Rightarrow> pystr list" where
  "split_sentences text =
     collect_sentences
       (str_split_sep [46, 10] (str_replace [63, 32] [46, 10] (str_replace [33, 32] [46, 10] text))) []"

text \<open>
  The packing loop, with its three variables \<open>chunks\<close>, \<open>current\<close> and \<open>current_len\<close>,
  and the statement after it:
  \<^verbatim>\<open>
  for sentence in sentences:
      if current_len + len(sentence) > size and current:
          chunks.append(" ".join(current))
          current = [sentence]
          current_len = len(sentence)
      else:
          current.append(sentence)
          current_len += len(sentence) + 1
  if current:
      chunks.append(" ".join(current))
  \<close>
  The parameter \<open>size\<close> is written \<open>sz\<close>.
\<close>

fun pack :: "int \<Rightarrow> pystr list \<Rightarrow> pystr list \<Rightarrow> pystr list \<Rightarrow> nat \<Rightarrow> pystr list" where
  "pack sz [] chunks current current_len =
     (if current \<noteq> [] then chunks @ [str_join [32] current] else chunks)"
| "pack sz (sentence # rest) chunks current current_len =
     (if int (current_len + length sentence) > sz \<and> current \<noteq> []
      then pack sz rest (chunks @ [str_join [32] current]) [sentence] (length sentence)
      else pack sz rest chunks (current @ [sentence]) (current_len + length sentence + 1))"

definition chunk_text :: "pystr \<Rightarrow> int \<Rightarrow> pystr list" where
  "chunk_text text sz = pack sz (split_sentences (normalise text)) [] [] 0"

definition CHUNK_SIZE :: int where
  "CHUNK_SIZE = 400"

section \<open>Floats and the silence generator\<close>

text \<open>
  \<open>--pause\<close> and \<open>--speed\<close> are parsed with \<open>type=float\<close>, so they are Python floats:
  a finite double, an infinity or a NaN (\<open>float("inf")\<close> is accepted on the command
  line). A finite float is represented by the real number it denotes. The product of two
  finite floats is the exact product rounded to a double; the rounding function is a
  parameter \<open>rnd\<close> of the model, and it returns an infinity when the product overflows.
\<close>

datatype pyfloat = Finite real | PosInf | NegInf | NaN

text \<open>The exceptions that are not caught by the programs.\<close>

datatype pyexn = OverflowError | ValueError | MemoryError | OSError pystr

text \<open>
  What the Python runtime contributes to \<open>generate_silence\<close>: the rounding of float
  products, \<open>sys.maxsize\<close> (the largest length of a sequence), and whether a buffer of
  a given number of bytes can be allocated.
\<close>

record runtime =
  float_round :: "real \<Rightarrow> pyfloat"
  maxsize :: int
  can_allocate :: "int \<Rightarrow> bool"

text \<open>\<open>k * x\<close> for an \<open>int\<close> \<open>k\<close> and a float \<open>x\<close>.\<close>

definition int_times_float :: "(real \<Rightarrow> pyfloat) \<Rightarrow> int \<Rightarrow> pyfloat \<Rightarrow> pyfloat" where
  "int_times_float rnd k x =
     (case x of
        Finite r \<Rightarrow> rnd (real_of_int k * r)
      | PosInf \<Rightarrow> (if 0 < k then PosInf else if k < 0 then NegInf else NaN)
      | NegInf \<Rightarrow> (if 0 < k then NegInf else if k < 0 then PosInf else NaN)
      | NaN \<Rightarrow> NaN)"

text \<open>
  \<open>int(x)\<close> for a float: truncation toward zero, \<open>OverflowError\<close> for an infinity and
  \<open>ValueError\<close> for a NaN.
\<close>

definition py_int :: "pyfloat \<Rightarrow> pyexn + int" where
  "py_int x =
     (case x of
        Finite r \<Rightarrow> Inr (if 0 \<le> r then \<lfloor>r\<rfloor> else \<lceil>r\<rceil>)
      | PosInf \<Rightarrow> Inl OverflowError
      | NegInf \<Rightarrow> Inl OverflowError
      | NaN \<Rightarrow> Inl ValueError)"

type_synonym byte = "8 word"

text \<open>
  \<open>b * n\<close> for a \<open>bytes\<close> value \<open>b\<close>, as CPython does it. The count must fit an
  index (\<open>OverflowError: cannot fit 'int' into an index-sized integer\<close>); a count that
  is not positive gives the empty buffer; the length of the result must not exceed
  \<open>sys.maxsize\<close> (\<open>OverflowError: repeated bytes are too long\<close>); and the result must be
  allocated (\<open>MemoryError\<close>).
\<close>

definition bytes_times :: "runtime \<Rightarrow> byte list \<Rightarrow> int \<Rightarrow> pyexn + byte list" where
  "bytes_times rt b n =
     (if maxsize rt < n \<or> n < - maxsize rt - 1 then Inl OverflowError
      else if n \<le> 0 then Inr []
      else if maxsize rt < int (length b) * n then Inl OverflowError
      else if \<not> can_allocate rt (int (length b) * n) then Inl MemoryError
      else Inr (concat (replicate (nat n) b)))"

definition SAMPLE_RATE :: int where
  "SAMPLE_RATE = 48000"

text \<open>
  \<^verbatim>\<open>
  def generate_silence(seconds):
      return b"\x00\x00" * int(SAMPLE_RATE * seconds)
  \<close>
  The three files hold the same function.
\<close>

definition generate_silence :: "runtime \<Rightarrow> pyfloat \<Rightarrow> pyexn + byte list" where
  "generate_silence rt seconds =
     (case py_int (int_times_float (float_round rt) SAMPLE_RATE seconds) of
        Inl e \<Rightarrow> Inl e
      | Inr n \<Rightarrow> bytes_times rt [0, 0] n)"

text \<open>
  The rounding that changes nothing. It is the rounding of IEEE arithmetic on every
  product that is itself a double, such as \<open>48000 * 2\<^sup>-\<^sup>1\<^sup>5\<close>, and is used for the
  concrete runs below.
\<close>

definition exact :: "real \<Rightarrow> pyfloat" where
  "exact x = Finite x"

text \<open>
  A 64-bit runtime, where \<open>sys.maxsize\<close> is \<open>2\<^sup>6\<^sup>3 - 1\<close>, on a machine that can
  give one buffer up to \<open>2\<^sup>3\<^sup>2\<close> bytes.
\<close>

definition runtime64 :: runtime where
  "runtime64 = \<lparr>float_round = exact, maxsize = 9223372036854775807,
                 can_allocate = (\<lambda>n. n \<le> 4294967296)\<rparr>"

section \<open>The three programs\<close>

text \<open>
  A segment of \<open>--segments\<close> after \<open>json.loads\<close>: an object whose fields, where present,
  are strings (\<open>speed\<close> a number). \<open>None\<close> is the absent key, the case in which
  \<open>seg.get(key, default)\<close> returns the default. A list whose elements are not such
  objects is outside the model.
\<close>

record segment =
  seg_text :: "pystr option"
  seg_voice :: "pystr option"
  seg_lang :: "pystr option"
  seg_speed :: "pyfloat option"
  seg_model :: "pystr option"

text \<open>
  The namespace that \<open>parse_args\<close> returns. \<open>rime.py\<close> has no \<open>--model\<close>,
  \<open>rime_tts.py\<close> has no \<open>text_file\<close> and takes the text as a positional argument, and
  \<open>rime_reader.py\<close> has neither \<open>--text\<close> nor \<open>--segments\<close>; each program reads
  only its own fields.
\<close>

record args =
  arg_text_file :: "pystr option"
  arg_text :: "pystr option"
  arg_segments :: "pystr option"
  arg_voice :: pystr
  arg_model :: pystr
  arg_speed :: pyfloat
  arg_lang :: "pystr option"
  arg_pause :: pyfloat

text \<open>The JSON body, the bearer token and the timeout of one request of \<open>synthesize\<close>.\<close>

record request =
  req_text :: pystr
  req_speaker :: pystr
  req_modelId :: pystr
  req_samplingRate :: int
  req_speedAlpha :: pyfloat
  req_lang :: "pystr option"
  req_bearer :: pystr
  req_timeout :: int

text \<open>
  What a run does to the world, in order. \<open>Post\<close> is one call of \<open>synthesize\<close> with
  what it returned: the PCM bytes, or the text of the exception it raised.
  \<open>Parser_error\<close> is \<open>parser.error\<close>, which prints the usage and the message on the
  error stream; \<open>Print_help\<close> is the help text that the option \<open>--help\<close> prints on
  standard output.
\<close>

datatype event =
    Print_help
  | Parser_error pystr
  | Stderr pystr
  | Stdout pystr
  | Mkdtemp pystr
  | Read_document pystr
  | Post request "pystr + byte list"
  | Write_file pystr "byte list"
  | Subprocess_run "pystr list"
  | Remove_file pystr

text \<open>How a run ends: \<open>sys.exit\<close> or the end of \<open>main\<close>, or an exception nobody catches.\<close>

datatype outcome = Exit int | Uncaught pyexn

text \<open>
  The collaborators of a run: the value of \<open>RIME_API_KEY\<close>, the Python runtime,
  \<open>tempfile.mkdtemp\<close>, \<open>json.loads\<close> (\<open>Inl\<close> is the text of a
  \<open>JSONDecodeError\<close>), the contents of the document or of standard input, the remote
  service, and the encoder, which returns its exit status and its error output. The
  answer of the remote service may depend on how many requests the run has made before.
  Creating the directory, writing the PCM file and removing it are taken to succeed. Of
  the allocations of a run, the one whose size the command line chooses, the silence, is
  in the model; the strings and the other buffers are lists of any length.
\<close>

record env =
  environ_api_key :: "pystr option"
  python :: runtime
  mkdtemp :: "pystr \<Rightarrow> pystr"
  json_loads :: "pystr \<Rightarrow> pystr + segment list"
  read_document :: "pystr \<Rightarrow> pyexn + pystr"
  urlopen :: "nat \<Rightarrow> request \<Rightarrow> pystr + byte list"
  ffmpeg :: "pystr list \<Rightarrow> byte list \<Rightarrow> pyexn + int \<times> pystr"

text \<open>Truth of a value that is \<open>None\<close> or a string, and the string it holds.\<close>

definition truthy :: "pystr option \<Rightarrow> bool" where
  "truthy x = (case x of None \<Rightarrow> False | Some s \<Rightarrow> s \<noteq> [])"

definition value_of :: "pystr option \<Rightarrow> pystr" where
  "value_of x = (case x of None \<Rightarrow> [] | Some s \<Rightarrow> s)"

text \<open>\<open>str(n)\<close> for an index.\<close>

fun str_nat :: "nat \<Rightarrow> pystr" where
  "str_nat n = (if n < 10 then [48 + n] else str_nat (n div 10) @ [48 + n mod 10])"

declare str_nat.simps [simp del]

text \<open>\<open>os.path.join\<close> of two components and \<open>os.path.dirname\<close>; 47 is the slash.\<close>

definition path_join :: "pystr \<Rightarrow> pystr \<Rightarrow> pystr" where
  "path_join a b =
     (if b \<noteq> [] \<and> hd b = 47 then b
      else if a = [] \<or> last a = 47 then a @ b
      else a @ [47] @ b)"

definition dirname :: "pystr \<Rightarrow> pystr" where
  "dirname p =
     (let head = rev (dropWhile (\<lambda>c. c \<noteq> 47) (rev p)) in
      if head \<noteq> [] \<and> \<not> list_all (\<lambda>c. c = 47) head
      then rev (dropWhile (\<lambda>c. c = 47) (rev head))
      else head)"

text \<open>Reading a trace: the calls of \<open>synthesize\<close>, the buffers written for the encoder,
  the runs of the encoder, and whether a call of \<open>synthesize\<close> failed.\<close>

fun post_of :: "event \<Rightarrow> (request \<times> (pystr + byte list)) list" where
  "post_of (Post r res) = [(r, res)]"
| "post_of _ = []"

definition posts :: "event list \<Rightarrow> (request \<times> (pystr + byte list)) list" where
  "posts tr = concat (map post_of tr)"

fun written_of :: "event \<Rightarrow> byte list list" where
  "written_of (Write_file p d) = [d]"
| "written_of _ = []"

definition written :: "event list \<Rightarrow> byte list list" where
  "written tr = concat (map written_of tr)"

fun run_of :: "event \<Rightarrow> pystr list list" where
  "run_of (Subprocess_run argv) = [argv]"
| "run_of _ = []"

definition encoder_runs :: "event list \<Rightarrow> pystr list list" where
  "encoder_runs tr = concat (map run_of tr)"



text \<open>The PCM blocks that the calls of \<open>synthesize\<close> returned, in order.\<close>

fun answer_of :: "event \<Rightarrow> byte list list" where
  "answer_of (Post r (Inr pcm)) = [pcm]"
| "answer_of _ = []"

definition answers :: "event list \<Rightarrow> byte list list" where
  "answers tr = concat (map answer_of tr)"

text \<open>
  \<open>synthesize\<close> builds the body and posts it. \<open>rime.py\<close> and \<open>rime_reader.py\<close> leave
  the model at its default \<open>"arcana"\<close> and wait 60 seconds; \<open>rime_tts.py\<close> passes the
  model and waits 30.
  \<^verbatim>\<open>
  body = {"text": text, "speaker": voice, "modelId": model,
          "samplingRate": SAMPLE_RATE, "speedAlpha": speed}
  if lang:
      body["lang"] = lang
  \<close>
\<close>

definition body :: "pystr \<Rightarrow> pystr \<Rightarrow> pystr \<Rightarrow> pyfloat \<Rightarrow> pystr option \<Rightarrow> pystr \<Rightarrow> int \<Rightarrow> request" where
  "body text voice model speed lang api_key timeout =
     \<lparr>req_text = text, req_speaker = voice, req_modelId = model,
      req_samplingRate = SAMPLE_RATE, req_speedAlpha = speed,
      req_lang = (if truthy lang then lang else None),
      req_bearer = api_key, req_timeout = timeout\<rparr>"

definition synthesize_request :: "pystr \<Rightarrow> pystr \<Rightarrow> pyfloat \<Rightarrow> pystr option \<Rightarrow> pystr \<Rightarrow> request" where
  "synthesize_request text voice speed lang api_key =
     body text voice (py ''arcana'') speed lang api_key 60"

definition tts_synthesize_request ::
    "pystr \<Rightarrow> pystr \<Rightarrow> pystr \<Rightarrow> pyfloat \<Rightarrow> pystr option \<Rightarrow> pystr \<Rightarrow> request" where
  "tts_synthesize_request text voice model speed lang api_key =
     body text voice model speed lang api_key 30"

definition synthesize :: "env \<Rightarrow> event list \<Rightarrow> request \<Rightarrow> pystr + byte list" where
  "synthesize e tr req = urlopen e (length (posts tr)) req"

text \<open>
  The messages \<open>f"Error on segment {i} (voice={voice}): {e}"\<close> and
  \<open>f"Error on chunk {i}: {e}"\<close>.
\<close>

definition segment_report :: "nat \<Rightarrow> pystr \<Rightarrow> pystr \<Rightarrow> pystr" where
  "segment_report i voice msg =
     py ''Error on segment '' @ str_nat i @ py '' (voice='' @ voice @ py ''): '' @ msg"

definition chunk_report :: "nat \<Rightarrow> pystr \<Rightarrow> pystr" where
  "chunk_report i msg = py ''Error on chunk '' @ str_nat i @ py '': '' @ msg"

text \<open>
  \<open>pcm_to_ogg\<close>: write the buffer beside the output file, run the encoder on it, and
  remove it when the encoder succeeded. The result \<open>None\<close> is the normal return.
\<close>

definition ffmpeg_argv :: "pystr \<Rightarrow> pystr \<Rightarrow> pystr list" where
  "ffmpeg_argv pcm_path ogg_path =
     [py ''ffmpeg'', py ''-y'', py ''-f'', py ''s16le'', py ''-ar'', str_nat (nat SAMPLE_RATE),
      py ''-ac'', py ''1'', py ''-i'', pcm_path, py ''-c:a'', py ''libopus'', py ''-b:a'', py ''64k'',
      py ''-vbr'', py ''on'', py ''-application'', py ''voip'', ogg_path]"

definition pcm_to_ogg :: "env \<Rightarrow> byte list \<Rightarrow> pystr \<Rightarrow> event list \<Rightarrow> event list \<times> outcome option" where
  "pcm_to_ogg e pcm_data ogg_path tr =
     (let tmp_dir = dirname ogg_path;
          pcm_path = path_join tmp_dir (py ''audio.pcm'');
          argv = ffmpeg_argv pcm_path ogg_path;
          tr1 = tr @ [Write_file pcm_path pcm_data, Subprocess_run argv]
      in case ffmpeg e argv pcm_data of
           Inl ex \<Rightarrow> (tr1, Some (Uncaught ex))
         | Inr (returncode, err) \<Rightarrow>
             if returncode \<noteq> 0
             then (tr1 @ [Stderr (py ''ffmpeg error: '' @ err)], Some (Exit 1))
             else (tr1 @ [Remove_file pcm_path], None))"

text \<open>
  The loop of the multi-voice mode of \<open>rime.py\<close>. \<open>n\<close> is \<open>len(segments)\<close>, \<open>i\<close> the
  index of \<open>enumerate\<close>, \<open>tr\<close> the trace so far. The result is the trace and either the
  way the run ended or the buffer \<open>all_pcm\<close>.
  \<^verbatim>\<open>
  for i, seg in enumerate(segments):
      text = seg.get("text", "")
      if not text:
          continue
      voice = seg.get("voice", args.voice)
      lang = seg.get("lang", args.lang)
      speed = seg.get("speed", args.speed)
      try:
          pcm = synthesize(text, voice, speed, lang, api_key)
          all_pcm.extend(pcm)
          if i < len(segments) - 1:
              all_pcm.extend(silence)
      except Exception as e:
          print(f"Error on segment {i} (voice={voice}): {e}", file=sys.stderr)
          sys.exit(1)
  \<close>
\<close>

fun segments_loop ::
    "env \<Rightarrow> args \<Rightarrow> pystr \<Rightarrow> byte list \<Rightarrow> int \<Rightarrow> nat \<Rightarrow> segment list \<Rightarrow> event list \<Rightarrow> byte list
     \<Rightarrow> event list \<times> (outcome + byte list)" where
  "segments_loop e a api_key silence n i [] tr all_pcm = (tr, Inr all_pcm)"
| "segments_loop e a api_key silence n i (seg # rest) tr all_pcm =
     (let text = (case seg_text seg of None \<Rightarrow> [] | Some t \<Rightarrow> t) in
      if text = [] then segments_loop e a api_key silence n (Suc i) rest tr all_pcm
      else
        let voice = (case seg_voice seg of None \<Rightarrow> arg_voice a | Some v \<Rightarrow> v);
            lang = (case seg_lang seg of None \<Rightarrow> arg_lang a | Some l \<Rightarrow> Some l);
            speed = (case seg_speed seg of None \<Rightarrow> arg_speed a | Some s \<Rightarrow> s);
            req = synthesize_request text voice speed lang api_key
        in case synthesize e tr req of
             Inl msg \<Rightarrow>
               (tr @ [Post req (Inl msg), Stderr (segment_report i voice msg)], Inl (Exit 1))
           | Inr pcm \<Rightarrow>
               segments_loop e a api_key silence n (Suc i) rest (tr @ [Post req (Inr pcm)])
                 (all_pcm @ pcm @ (if int i < n - 1 then silence else [])))"

text \<open>
  The loop of \<open>rime_tts.py\<close> resolves all the fields, the model among them, before it
  tests the text, and calls the silence \<open>pause\<close>.
\<close>

fun tts_segments_loop ::
    "env \<Rightarrow> args \<Rightarrow> pystr \<Rightarrow> byte list \<Rightarrow> int \<Rightarrow> nat \<Rightarrow> segment list \<Rightarrow> event list \<Rightarrow> byte list
     \<Rightarrow> event list \<times> (outcome + byte list)" where
  "tts_segments_loop e a api_key pause n i [] tr all_pcm = (tr, Inr all_pcm)"
| "tts_segments_loop e a api_key pause n i (seg # rest) tr all_pcm =
     (let text = (case seg_text seg of None \<Rightarrow> [] | Some t \<Rightarrow> t);
          voice = (case seg_voice seg of None \<Rightarrow> arg_voice a | Some v \<Rightarrow> v);
          lang = (case seg_lang seg of None \<Rightarrow> arg_lang a | Some l \<Rightarrow> Some l);
          speed = (case seg_speed seg of None \<Rightarrow> arg_speed a | Some s \<Rightarrow> s);
          model = (case seg_model seg of None \<Rightarrow> arg_model a | Some m \<Rightarrow> m)
      in
      if text = [] then tts_segments_loop e a api_key pause n (Suc i) rest tr all_pcm
      else
        let req = tts_synthesize_request text voice model speed lang api_key
        in case synthesize e tr req of
             Inl msg \<Rightarrow>
               (tr @ [Post req (Inl msg), Stderr (segment_report i voice msg)], Inl (Exit 1))
           | Inr pcm \<Rightarrow>
               tts_segments_loop e a api_key pause n (Suc i) rest (tr @ [Post req (Inr pcm)])
                 (all_pcm @ pcm @ (if int i < n - 1 then pause else [])))"

text \<open>
  The loop of the document mode, the same in \<open>rime.py\<close> and \<open>rime_reader.py\<close>:
  \<^verbatim>\<open>
  for i, chunk in enumerate(chunks):
      try:
          pcm = synthesize(chunk, args.voice, args.speed, args.lang, api_key)
          all_pcm.extend(pcm)
          if i < len(chunks) - 1:
              all_pcm.extend(silence)
      except Exception as e:
          print(f"Error on chunk {i}: {e}", file=sys.stderr)
          sys.exit(1)
  \<close>
\<close>

fun chunks_loop ::
    "env \<Rightarrow> args \<Rightarrow> pystr \<Rightarrow> byte list \<Rightarrow> int \<Rightarrow> nat \<Rightarrow> pystr list \<Rightarrow> event list \<Rightarrow> byte list
     \<Rightarrow> event list \<times> (outcome + byte list)" where
  "chunks_loop e a api_key silence n i [] tr all_pcm = (tr, Inr all_pcm)"
| "chunks_loop e a api_key silence n i (chunk # rest) tr all_pcm =
     (let req = synthesize_request chunk (arg_voice a) (arg_speed a) (arg_lang a) api_key
      in case synthesize e tr req of
           Inl msg \<Rightarrow>
             (tr @ [Post req (Inl msg), Stderr (chunk_report i msg)], Inl (Exit 1))
         | Inr pcm \<Rightarrow>
             chunks_loop e a api_key silence n (Suc i) rest (tr @ [Post req (Inr pcm)])
               (all_pcm @ pcm @ (if int i < n - 1 then silence else [])))"

text \<open>The one call of the single-voice mode.\<close>

definition single_call :: "env \<Rightarrow> request \<Rightarrow> event list \<Rightarrow> event list \<times> (outcome + byte list)" where
  "single_call e req tr =
     (case synthesize e tr req of
        Inl msg \<Rightarrow>
          (tr @ [Post req (Inl msg), Stderr (py ''Error calling Rime API: '' @ msg)], Inl (Exit 1))
      | Inr pcm \<Rightarrow> (tr @ [Post req (Inr pcm)], Inr pcm))"

text \<open>
  The end of \<open>main\<close>: nothing more when the run has ended already, else
  \<open>pcm_to_ogg(bytes(all_pcm), ogg_path)\<close> and \<open>print(ogg_path)\<close>.
\<close>

definition transcode_and_print ::
    "env \<Rightarrow> pystr \<Rightarrow> event list \<times> (outcome + byte list) \<Rightarrow> event list \<times> outcome" where
  "transcode_and_print e ogg_path r =
     (case r of
        (tr, Inl out) \<Rightarrow> (tr, out)
      | (tr, Inr all_pcm) \<Rightarrow>
          (case pcm_to_ogg e all_pcm ogg_path tr of
             (tr', Some out) \<Rightarrow> (tr', out)
           | (tr', None) \<Rightarrow> (tr' @ [Stdout ogg_path], Exit 0)))"

text \<open>
  \<open>main\<close> of \<open>rime.py\<close>, from the return of \<open>parse_args\<close>. The single-voice branch
  is reached only with \<open>args.text\<close> set, by the first test.
\<close>

definition main :: "env \<Rightarrow> args \<Rightarrow> event list \<times> outcome" where
  "main e a =
     (if \<not> truthy (arg_text_file a) \<and> \<not> truthy (arg_text a) \<and> \<not> truthy (arg_segments a)
      then ([Parser_error (py ''Provide a text file, --text, or --segments'')], Exit 2)
      else if \<not> truthy (environ_api_key e)
      then ([Stderr (py ''Error: RIME_API_KEY not set'')], Exit 1)
      else
        let api_key = value_of (environ_api_key e);
            tmp_dir = mkdtemp e (py ''rime_'');
            ogg_path = path_join tmp_dir (py ''output.ogg'');
            tr = [Mkdtemp (py ''rime_'')]
        in case generate_silence (python e) (arg_pause a) of
             Inl ex \<Rightarrow> (tr, Uncaught ex)
           | Inr silence \<Rightarrow>
               if truthy (arg_segments a) then
                 (case json_loads e (value_of (arg_segments a)) of
                    Inl msg \<Rightarrow> (tr @ [Stderr (py ''Error parsing --segments JSON: '' @ msg)], Exit 1)
                  | Inr segments \<Rightarrow>
                      transcode_and_print e ogg_path
                        (segments_loop e a api_key silence (int (length segments)) 0 segments tr []))
               else if truthy (arg_text_file a) then
                 (let tr = tr @ [Read_document (value_of (arg_text_file a))] in
                  case read_document e (value_of (arg_text_file a)) of
                    Inl ex \<Rightarrow> (tr, Uncaught ex)
                  | Inr contents \<Rightarrow>
                      let text = str_strip contents in
                      if text = [] then (tr @ [Stderr (py ''Error: document is empty'')], Exit 1)
                      else
                        let chunks = chunk_text text CHUNK_SIZE in
                        transcode_and_print e ogg_path
                          (chunks_loop e a api_key silence (int (length chunks)) 0 chunks tr []))
               else
                 transcode_and_print e ogg_path
                   (single_call e
                      (synthesize_request (value_of (arg_text a)) (arg_voice a) (arg_speed a)
                         (arg_lang a) api_key) tr))"

text \<open>
  \<open>main\<close> of \<open>rime_reader.py\<close>: the credential, the document, the chunks, the silence,
  the loop, and only then the temporary directory.
\<close>

definition reader_main :: "env \<Rightarrow> args \<Rightarrow> event list \<times> outcome" where
  "reader_main e a =
     (if \<not> truthy (environ_api_key e)
      then ([Stderr (py ''Error: RIME_API_KEY not set'')], Exit 1)
      else
        let api_key = value_of (environ_api_key e);
            tr = [Read_document (value_of (arg_text_file a))]
        in case read_document e (value_of (arg_text_file a)) of
             Inl ex \<Rightarrow> (tr, Uncaught ex)
           | Inr contents \<Rightarrow>
               let text = str_strip contents in
               if text = [] then (tr @ [Stderr (py ''Error: document is empty'')], Exit 1)
               else
                 let chunks = chunk_text text CHUNK_SIZE in
                 case generate_silence (python e) (arg_pause a) of
                   Inl ex \<Rightarrow> (tr, Uncaught ex)
                 | Inr silence \<Rightarrow>
                     (case chunks_loop e a api_key silence (int (length chunks)) 0 chunks tr [] of
                        (tr', Inl out) \<Rightarrow> (tr', out)
                      | (tr', Inr all_pcm) \<Rightarrow>
                          let tmp_dir = mkdtemp e (py ''rime_reader_'');
                              ogg_path = path_join tmp_dir (py ''reading.ogg'')
                          in transcode_and_print e ogg_path
                               (tr' @ [Mkdtemp (py ''rime_reader_'')], Inr all_pcm)))"

text \<open>\<open>main\<close> of \<open>rime_tts.py\<close>.\<close>

definition tts_main :: "env \<Rightarrow> args \<Rightarrow> event list \<times> outcome" where
  "tts_main e a =
     (if \<not> truthy (arg_text a) \<and> \<not> truthy (arg_segments a)
      then ([Parser_error (py ''Provide either text or --segments'')], Exit 2)
      else if \<not> truthy (environ_api_key e)
      then ([Stderr (py ''Error: RIME_API_KEY not set'')], Exit 1)
      else
        let api_key = value_of (environ_api_key e);
            tmp_dir = mkdtemp e (py ''rime_tts_'');
            ogg_path = path_join tmp_dir (py ''voice.ogg'');
            tr = [Mkdtemp (py ''rime_tts_'')]
        in case generate_silence (python e) (arg_pause a) of
             Inl ex \<Rightarrow> (tr, Uncaught ex)
           | Inr pause \<Rightarrow>
               if truthy (arg_segments a) then
                 (case json_loads e (value_of (arg_segments a)) of
                    Inl msg \<Rightarrow> (tr @ [Stderr (py ''Error parsing --segments JSON: '' @ msg)], Exit 1)
                  | Inr segments \<Rightarrow>
                      transcode_and_print e ogg_path
                        (tts_segments_loop e a api_key pause (int (length segments)) 0 segments tr []))
               else
                 transcode_and_print e ogg_path
                   (single_call e
                      (tts_synthesize_request (value_of (arg_text a)) (arg_voice a) (arg_model a)
                         (arg_speed a) (arg_lang a) api_key) tr))"

text \<open>The programs by name, and the mode each one selects from its arguments.\<close>

datatype program = Rime | Rime_reader | Rime_tts

datatype mode = Multi_segment | Document | Single


fun mode_of :: "program \<Rightarrow> args \<Rightarrow> mode" where
  "mode_of Rime a =
     (if truthy (arg_segments a) then Multi_segment
      else if truthy (arg_text_file a) then Document else Single)"
| "mode_of Rime_reader a = Document"
| "mode_of Rime_tts a = (if truthy (arg_segments a) then Multi_segment else Single)"







section \<open>Concrete runs\<close>

text \<open>
  A segment with the two fields \<open>text\<close> and \<open>voice\<close>, and the segment list
  \<^verbatim>\<open>[{"text":"Hi","voice":"a"},{"text":"","voice":"b"},{"text":"Bye","voice":"c"}]\<close>
\<close>

definition seg :: "string \<Rightarrow> string \<Rightarrow> segment" where
  "seg t v = \<lparr>seg_text = Some (py t), seg_voice = Some (py v), seg_lang = None,
              seg_speed = None, seg_model = None\<rparr>"

definition hi_skip_bye :: "segment list" where
  "hi_skip_bye = [seg ''Hi'' ''a'', seg [] ''b'', seg ''Bye'' ''c'']"

text \<open>The list \<^verbatim>\<open>[{"text":"Hi","voice":"a"},{"text":"","voice":"b"}]\<close>.\<close>

definition hi_skip :: "segment list" where
  "hi_skip = [seg ''Hi'' ''a'', seg [] ''b'']"

text \<open>The list \<^verbatim>\<open>[{"text":"Hi","voice":"a"},{"text":"Hi","voice":"a"}]\<close>, the same segment twice.\<close>

definition hi_hi :: "segment list" where
  "hi_hi = [seg ''Hi'' ''a'', seg ''Hi'' ''a'']"

text \<open>
  A remote service that answers every request with two bytes, the second the length of
  the text, and one that fails with the message \<open>boom\<close> from a given request on.
\<close>

definition two_bytes :: "nat \<Rightarrow> request \<Rightarrow> pystr + byte list" where
  "two_bytes k req = Inr [1, of_nat (length (req_text req))]"

definition fails_from :: "nat \<Rightarrow> nat \<Rightarrow> request \<Rightarrow> pystr + byte list" where
  "fails_from j k req = (if j \<le> k then Inl (py ''boom'') else two_bytes k req)"

definition tmp_under :: "pystr \<Rightarrow> pystr" where
  "tmp_under prefix = py ''/tmp/'' @ prefix @ py ''x''"

definition encoder_ok :: "pystr list \<Rightarrow> byte list \<Rightarrow> pyexn + int \<times> pystr" where
  "encoder_ok argv pcm = Inr (0, [])"

definition world :: "segment list \<Rightarrow> (nat \<Rightarrow> request \<Rightarrow> pystr + byte list) \<Rightarrow> env" where
  "world segments remote =
     \<lparr>environ_api_key = Some (py ''key''), python = runtime64, mkdtemp = tmp_under,
      json_loads = (\<lambda>s. Inr segments), read_document = (\<lambda>p. Inr (py ''One. Two'')),
      urlopen = remote, ffmpeg = encoder_ok\<rparr>"

text \<open>
  Arguments with a pause of \<open>2\<^sup>-\<^sup>1\<^sup>5\<close> seconds, which is one sample, two zero
  bytes: \<open>--segments\<close> alone, \<open>--text Hi\<close> alone, and a document path alone.
\<close>

definition args_of :: "pystr option \<Rightarrow> pystr option \<Rightarrow> pystr option \<Rightarrow> args" where
  "args_of text_file text segments =
     \<lparr>arg_text_file = text_file, arg_text = text, arg_segments = segments,
      arg_voice = py ''atrium'', arg_model = py ''arcana'', arg_speed = Finite 1, arg_lang = None,
      arg_pause = Finite (1 / 32768)\<rparr>"

definition segments_args :: args where
  "segments_args = args_of None None (Some (py ''[...]''))"

definition text_args :: args where
  "text_args = args_of None (Some (py ''Hi'')) None"

definition document_args :: args where
  "document_args = args_of (Some (py ''doc.txt'')) None None"

text \<open>
  A document of three sentences of 200 characters each: 199 times \<open>a\<close> and \<open>! \<close>,
  199 times \<open>b\<close> and \<open>! \<close>, 199 times \<open>c\<close> and \<open>!\<close>.
\<close>

definition long_text :: pystr where
  "long_text =
     replicate 199 97 @ [33, 32] @ replicate 199 98 @ [33, 32] @ replicate 199 99 @ [33]"

section \<open>Properties of the chunker\<close>

subsection \<open>String operations\<close>

lemma split_ws_words:
  "list_all (\<lambda>c. \<not> isspace c) cur \<Longrightarrow>
   list_all (\<lambda>w. w \<noteq> [] \<and> list_all (\<lambda>c. \<not> isspace c) w) (split_ws cur s)"
  by (induction cur s rule: split_ws.induct) simp_all

lemma split_ws_Nil_iff:
  "split_ws cur s = [] \<longleftrightarrow> cur = [] \<and> (\<forall>c\<in>set s. isspace c)"
  by (induction cur s rule: split_ws.induct) auto

lemma str_join_last:
  "xs \<noteq> [] \<Longrightarrow> last xs \<noteq> [] \<Longrightarrow> str_join sep xs \<noteq> [] \<and> last (str_join sep xs) = last (last xs)"
  by (induction sep xs rule: str_join.induct) auto

lemma str_replace_last:
  "s \<noteq> [] \<Longrightarrow> old \<noteq> [] \<Longrightarrow> last s \<noteq> last old \<Longrightarrow>
   str_replace old new s \<noteq> [] \<and> last (str_replace old new s) = last s"
proof (induction old new s rule: str_replace.induct)
  case (1 old new)
  then show ?case by simp
next
  case (2 old new c cs)
  show ?case
  proof (cases "take (length old) (c # cs) = old")
    case True
    define rest where "rest = drop (length old - 1) cs"
    have dr: "drop (length old) (c # cs) = rest"
      using "2.prems"(2) by (cases old) (simp_all add: rest_def)
    have split: "c # cs = old @ rest"
      using True dr append_take_drop_id [of "length old" "c # cs"] by simp
    have rest_ne: "rest \<noteq> []"
      using "2.prems"(2,3) split by auto
    have lst: "last rest = last (c # cs)"
      using split rest_ne by simp
    have "str_replace old new rest \<noteq> [] \<and> last (str_replace old new rest) = last rest"
      using "2.IH"(1) True "2.prems"(2,3) rest_ne lst unfolding rest_def by simp
    then show ?thesis
      using True "2.prems"(2) lst by (simp add: rest_def)
  next
    case False
    show ?thesis
    proof (cases "cs = []")
      case True
      then show ?thesis using False by simp
    next
      case ne: False
      have "str_replace old new cs \<noteq> [] \<and> last (str_replace old new cs) = last cs"
        using "2.IH"(2) False ne "2.prems" by simp
      then show ?thesis using False ne by simp
    qed
  qed
qed

lemma split_sep_last:
  "cur @ s \<noteq> [] \<Longrightarrow> sep \<noteq> [] \<Longrightarrow> last (cur @ s) \<noteq> last sep \<Longrightarrow>
   split_sep sep cur s \<noteq> [] \<and> last (split_sep sep cur s) \<noteq> [] \<and>
   last (last (split_sep sep cur s)) = last (cur @ s)"
proof (induction sep cur s rule: split_sep.induct)
  case (1 sep cur)
  then show ?case by simp
next
  case (2 sep cur c cs)
  show ?case
  proof (cases "take (length sep) (c # cs) = sep")
    case True
    define rest where "rest = drop (length sep - 1) cs"
    have dr: "drop (length sep) (c # cs) = rest"
      using "2.prems"(2) by (cases sep) (simp_all add: rest_def)
    have split: "c # cs = sep @ rest"
      using True dr append_take_drop_id [of "length sep" "c # cs"] by simp
    have rest_ne: "rest \<noteq> []"
      using "2.prems"(2,3) split by auto
    have lst: "last rest = last (cur @ c # cs)"
      using split rest_ne by simp
    have "split_sep sep [] rest \<noteq> [] \<and> last (split_sep sep [] rest) \<noteq> [] \<and>
          last (last (split_sep sep [] rest)) = last ([] @ rest)"
      using "2.IH"(1) True "2.prems"(2,3) rest_ne lst unfolding rest_def by simp
    then show ?thesis
      using True "2.prems"(2) lst by (simp add: rest_def)
  next
    case False
    have "split_sep sep (cur @ [c]) cs \<noteq> [] \<and> last (split_sep sep (cur @ [c]) cs) \<noteq> [] \<and>
          last (last (split_sep sep (cur @ [c]) cs)) = last ((cur @ [c]) @ cs)"
      using "2.IH"(2) False "2.prems" by simp
    then show ?thesis using False by simp
  qed
qed

lemma dropWhile_keeps_last:
  "s \<noteq> [] \<Longrightarrow> \<not> P (last s) \<Longrightarrow> dropWhile P s \<noteq> [] \<and> last (dropWhile P s) = last s"
  by (induction s) (auto split: if_splits)

lemma str_strip_last:
  assumes "s \<noteq> []" and "\<not> isspace (last s)"
  shows "str_strip s \<noteq> []"
proof -
  have "dropWhile isspace s \<noteq> []"
    using assms dropWhile_keeps_last by blast
  moreover have "last (dropWhile isspace s) = last s"
    using assms dropWhile_keeps_last by blast
  ultimately have "dropWhile isspace (rev (dropWhile isspace s)) = rev (dropWhile isspace s)"
    using assms(2) by (cases "rev (dropWhile isspace s)") (auto simp: last_rev)
  then show ?thesis
    using \<open>dropWhile isspace s \<noteq> []\<close> by (simp add: str_strip_def)
qed

lemma collect_sentences_terminated:
  "list_all ends_with_terminator sentences \<Longrightarrow>
   list_all ends_with_terminator (collect_sentences raws sentences)"
  by (induction raws sentences rule: collect_sentences.induct)
     (simp_all add: Let_def ends_with_terminator_def)

lemma collect_sentences_nonempty:
  "sentences \<noteq> [] \<or> (\<exists>raw\<in>set raws. str_strip raw \<noteq> []) \<Longrightarrow>
   collect_sentences raws sentences \<noteq> []"
  by (induction raws sentences rule: collect_sentences.induct) (auto simp: Let_def)

lemma str_join_terminated:
  "xs \<noteq> [] \<Longrightarrow> list_all ends_with_terminator xs \<Longrightarrow> ends_with_terminator (str_join sep xs)"
proof -
  assume ne: "xs \<noteq> []" and all: "list_all ends_with_terminator xs"
  then have "ends_with_terminator (last xs)"
    by (simp add: list_all_iff)
  then show ?thesis
    using str_join_last [of xs sep] ne by (simp add: ends_with_terminator_def)
qed

lemma pack_terminated:
  "list_all ends_with_terminator chunks \<Longrightarrow> list_all ends_with_terminator current \<Longrightarrow>
   list_all ends_with_terminator sentences \<Longrightarrow>
   list_all ends_with_terminator (pack sz sentences chunks current current_len)"
  by (induction sz sentences chunks current current_len rule: pack.induct)
     (simp_all add: str_join_terminated)

lemma pack_nonempty:
  "sentences \<noteq> [] \<or> current \<noteq> [] \<or> chunks \<noteq> [] \<Longrightarrow>
   pack sz sentences chunks current current_len \<noteq> []"
  by (induction sz sentences chunks current current_len rule: pack.induct) auto

lemma normalise_blank:
  "\<forall>c\<in>set text. isspace c \<Longrightarrow> normalise text = []"
proof -
  assume "\<forall>c\<in>set text. isspace c"
  then have "split_ws [] text = []" by (simp add: split_ws_Nil_iff)
  then show ?thesis by (simp add: normalise_def str_split_def)
qed

lemma normalise_last:
  assumes "\<exists>c\<in>set text. \<not> isspace c"
  shows "normalise text \<noteq> [] \<and> \<not> isspace (last (normalise text))"
proof -
  let ?ws = "str_split text"
  have ne: "?ws \<noteq> []"
    using assms by (simp add: str_split_def split_ws_Nil_iff)
  then have "last ?ws \<in> set ?ws" by simp
  moreover have "list_all (\<lambda>w. w \<noteq> [] \<and> list_all (\<lambda>c. \<not> isspace c) w) ?ws"
    using split_ws_words [of "[]" "text"] by (simp add: str_split_def)
  ultimately have w: "last ?ws \<noteq> [] \<and> list_all (\<lambda>c. \<not> isspace c) (last ?ws)"
    unfolding list_all_iff by blast
  then have "\<not> isspace (last (last ?ws))"
    unfolding list_all_iff using last_in_set by blast
  then show ?thesis
    using str_join_last [of ?ws "[32]"] ne w by (simp add: normalise_def)
qed

lemma split_sentences_nonempty:
  assumes "t \<noteq> []" and "\<not> isspace (last t)"
  shows "split_sentences t \<noteq> []"
proof -
  have sp: "isspace 32" "isspace 10" by (simp_all add: isspace_def)
  let ?a = "str_replace [33, 32] [46, 10] t"
  let ?b = "str_replace [63, 32] [46, 10] ?a"
  let ?ps = "str_split_sep [46, 10] ?b"
  have l32: "last t \<noteq> 32" and l10: "last t \<noteq> 10"
    using assms(2) sp by auto
  have a: "?a \<noteq> [] \<and> last ?a = last t"
    using assms(1) l32 str_replace_last [of t "[33, 32]" "[46, 10]"] by simp
  have b: "?b \<noteq> [] \<and> last ?b = last t"
    using a l32 str_replace_last [of ?a "[63, 32]" "[46, 10]"] by simp
  have "last ?b \<noteq> 10" using b l10 by simp
  then have p: "?ps \<noteq> [] \<and> last ?ps \<noteq> [] \<and> last (last ?ps) = last t"
    using b split_sep_last [of "[]" ?b "[46, 10]"] by (simp add: str_split_sep_def)
  then have "str_strip (last ?ps) \<noteq> []"
    using assms str_strip_last by simp
  moreover have "last ?ps \<in> set ?ps" using p by simp
  ultimately show ?thesis
    unfolding split_sentences_def using collect_sentences_nonempty by blast
qed

lemma split_sentences_Nil: "split_sentences [] = []"
  by (simp add: split_sentences_def str_split_sep_def str_strip_def)

lemma chunk_text_all_terminated: "list_all ends_with_terminator (chunk_text text sz)"
proof -
  have "list_all ends_with_terminator (split_sentences (normalise text))"
    unfolding split_sentences_def by (rule collect_sentences_terminated) simp
  then show ?thesis
    unfolding chunk_text_def by (intro pack_terminated) simp_all
qed

subsection \<open>Runs of ordinary characters\<close>

lemma split_ws_word:
  "\<forall>c\<in>set w. \<not> isspace c \<Longrightarrow> split_ws cur (w @ rest) = split_ws (cur @ w) rest"
  by (induction w arbitrary: cur) simp_all

lemma str_replace_word:
  "old \<noteq> [] \<Longrightarrow> hd old \<notin> set w \<Longrightarrow>
   str_replace old new (w @ rest) = w @ str_replace old new rest"
proof (induction w)
  case Nil
  then show ?case by simp
next
  case (Cons c w)
  then have "take (length old) (c # w @ rest) \<noteq> old"
    by (cases old) auto
  then show ?case using Cons by simp
qed

lemma split_sep_word:
  "sep \<noteq> [] \<Longrightarrow> hd sep \<notin> set w \<Longrightarrow>
   split_sep sep cur (w @ rest) = split_sep sep (cur @ w) rest"
proof (induction w arbitrary: cur)
  case Nil
  then show ?case by simp
next
  case (Cons c w)
  then have "take (length sep) (c # w @ rest) \<noteq> sep"
    by (cases sep) auto
  then show ?case using Cons by simp
qed

lemma str_strip_id:
  "s \<noteq> [] \<Longrightarrow> \<not> isspace (hd s) \<Longrightarrow> \<not> isspace (last s) \<Longrightarrow> str_strip s = s"
proof -
  assume a: "s \<noteq> []" "\<not> isspace (hd s)" "\<not> isspace (last s)"
  then have 1: "dropWhile isspace s = s"
    by (cases s) simp_all
  have "dropWhile isspace (rev s) = rev s"
    using a by (cases "rev s") (auto simp: hd_rev)
  then show ?thesis by (simp add: str_strip_def 1)
qed

lemma long_text_sentences:
  "split_sentences (normalise long_text) =
     [replicate 199 97 @ [46], replicate 199 98 @ [46], replicate 199 99 @ [33]]"
proof -
  have sp: "\<not> isspace 97" "\<not> isspace 98" "\<not> isspace 99" "\<not> isspace 33" "isspace 32"
    "\<not> isspace 46"
    by (simp_all add: isspace_def)
  have n: "normalise long_text = long_text"
    unfolding normalise_def str_split_def long_text_def
    by (simp add: split_ws_word sp)
  have r1: "str_replace [33, 32] [46, 10] long_text =
      replicate 199 97 @ [46, 10] @ replicate 199 98 @ [46, 10] @ replicate 199 99 @ [33]"
    unfolding long_text_def by (simp add: str_replace_word)
  have r2: "str_replace [63, 32] [46, 10]
        (replicate 199 97 @ [46, 10] @ replicate 199 98 @ [46, 10] @ replicate 199 99 @ [33]) =
      replicate 199 97 @ [46, 10] @ replicate 199 98 @ [46, 10] @ replicate 199 99 @ [33]"
    using str_replace_word [of "[63, 32]"
        "replicate 199 97 @ [46, 10] @ replicate 199 98 @ [46, 10] @ replicate 199 99 @ [33]"
        "[46, 10]" "[]"]
    by simp
  have sp3: "str_split_sep [46, 10]
        (replicate 199 97 @ [46, 10] @ replicate 199 98 @ [46, 10] @ replicate 199 99 @ [33]) =
      [replicate 199 97, replicate 199 98, replicate 199 99 @ [33]]"
    unfolding str_split_sep_def
    by (simp add: split_sep_word)
  have st: "str_strip (replicate 199 97) = replicate 199 97"
    "str_strip (replicate 199 98) = replicate 199 98"
    "str_strip (replicate 199 99 @ [33]) = replicate 199 99 @ [33]"
    by (rule str_strip_id; simp add: sp hd_append)+
  show ?thesis
    unfolding n split_sentences_def r1 r2 sp3
    by (simp add: st ends_with_terminator_def Let_def)
qed

lemma long_text_chunks:
  "chunk_text long_text CHUNK_SIZE =
     [replicate 199 97 @ [46], replicate 199 98 @ [46, 32] @ replicate 199 99 @ [33]] \<and>
   length (replicate 199 98 @ [46, 32] @ replicate 199 99 @ [33] :: pystr) = 401"
  unfolding chunk_text_def long_text_sentences CHUNK_SIZE_def
  by simp

subsection \<open>The claims about the chunker\<close>

text \<open>
  Claim C9. For every input text and every budget, each chunk that \<open>chunk_text\<close> returns is
  non-empty and ends with one of the characters \<open>.\<close> (46), \<open>!\<close> (33) or \<open>?\<close> (63).
\<close>

theorem chunk_text_terminated:
  "\<forall>chunk\<in>set (chunk_text text sz). chunk \<noteq> [] \<and> (last chunk = 46 \<or> last chunk = 33 \<or> last chunk = 63)"
  using chunk_text_all_terminated [of "text" sz]
  unfolding list_all_iff ends_with_terminator_def by blast

theorem chunk_text_terminated_witness:
  "py ''Hi. Bye!'' \<in> set (chunk_text (py '' Hi.  Bye!'') 400) \<and>
   py ''Hi. Bye!'' \<noteq> [] \<and>
   (last (py ''Hi. Bye!'') = 46 \<or> last (py ''Hi. Bye!'') = 33 \<or> last (py ''Hi. Bye!'') = 63)"
proof -
  have m: "py ''Hi. Bye!'' \<in> set (chunk_text (py '' Hi.  Bye!'') 400)"
    by (simp add: chunk_text_def py_def normalise_def split_sentences_def str_split_def
        isspace_def str_split_sep_def str_strip_def ends_with_terminator_def)
  show ?thesis
    using m chunk_text_terminated [of "py '' Hi.  Bye!''" 400] by blast
qed

text \<open>
  Claim C6. For every input text, \<open>chunk_text\<close> returns the empty sequence exactly when the
  text is empty or consists of white space only, and the empty string is never one of the
  chunks.
\<close>

theorem chunk_text_empty_iff:
  "(chunk_text text sz = [] \<longleftrightarrow> (\<forall>c\<in>set text. isspace c)) \<and> [] \<notin> set (chunk_text text sz)"
proof
  show "chunk_text text sz = [] \<longleftrightarrow> (\<forall>c\<in>set text. isspace c)"
  proof
    assume e: "chunk_text text sz = []"
    show "\<forall>c\<in>set text. isspace c"
    proof (rule ccontr)
      assume "\<not> (\<forall>c\<in>set text. isspace c)"
      then have "normalise text \<noteq> [] \<and> \<not> isspace (last (normalise text))"
        using normalise_last by blast
      then have "split_sentences (normalise text) \<noteq> []"
        using split_sentences_nonempty by blast
      then have "chunk_text text sz \<noteq> []"
        unfolding chunk_text_def using pack_nonempty by blast
      then show False using e by simp
    qed
  next
    assume "\<forall>c\<in>set text. isspace c"
    then show "chunk_text text sz = []"
      by (simp add: chunk_text_def normalise_blank split_sentences_Nil)
  qed
next
  show "[] \<notin> set (chunk_text text sz)"
    using chunk_text_all_terminated [of "text" sz]
    unfolding list_all_iff ends_with_terminator_def by blast
qed

theorem chunk_text_empty_iff_witness:
  "list_all isspace [32, 9, 10] \<and> chunk_text [32, 9, 10] 400 = [] \<and>
   \<not> list_all isspace (py ''a'') \<and> chunk_text (py ''a'') 400 \<noteq> []"
proof -
  have a: "list_all isspace [32, 9, 10]"
    by (simp add: isspace_def)
  have b: "\<not> list_all isspace (py ''a'')"
    by (simp add: isspace_def py_def)
  show ?thesis
    using a b chunk_text_empty_iff [of "[32, 9, 10]" 400] chunk_text_empty_iff [of "py ''a''" 400]
    unfolding list_all_iff by blast
qed

text \<open>
  Claim C3. The claim is that the chunker splits at every \<open>". "\<close>, \<open>"! "\<close> and
  \<open>"? "\<close>. The code rewrites \<open>"! "\<close> and \<open>"? "\<close> to \<open>".\n"\<close> and splits at
  \<open>".\n"\<close>; the normalised text has no newline, so \<open>". "\<close> is never a boundary. On
  \<open>"One. Two! Three"\<close> the sentences are \<open>"One. Two."\<close> and \<open>"Three."\<close>, and with a budget
  of 5 the text \<open>"One. Two"\<close> comes back as the single nine-character chunk
  \<open>"One. Two."\<close>.
\<close>

theorem chunk_text_period_not_boundary:
  "split_sentences (normalise (py ''One. Two! Three'')) = [py ''One. Two.'', py ''Three.''] \<and>
   chunk_text (py ''One. Two'') 5 = [py ''One. Two.'']"
  by (simp add: chunk_text_def py_def normalise_def split_sentences_def str_split_def
      isspace_def str_split_sep_def str_strip_def ends_with_terminator_def)

text \<open>
  Claim C4. The claim is that every chunk is within the budget or is a single sentence.
  The loop counts the joining space when it appends to the current chunk
  (\<open>current_len += len(sentence) + 1\<close>) but not when it starts a chunk after closing one
  (\<open>current_len = len(sentence)\<close>), so a chunk started that way can take a second sentence
  and end one character over the budget. With the budget of the programs, 400, the
  document \<open>long_text\<close> of three sentences of 200 characters comes back as two chunks, and
  the second holds two sentences in 401 characters. With a budget of 5 the text
  \<open>"aaaa! b! cc!"\<close> has the sentences \<open>"aaaa."\<close>, \<open>"b."\<close> and \<open>"cc!"\<close>, and the
  second chunk \<open>"b. cc!"\<close> holds two sentences in six characters.
\<close>

theorem chunk_text_over_budget:
  "chunk_text long_text CHUNK_SIZE =
     [replicate 199 97 @ [46], replicate 199 98 @ [46, 32] @ replicate 199 99 @ [33]] \<and>
   length (replicate 199 98 @ [46, 32] @ replicate 199 99 @ [33] :: pystr) = 401 \<and>
   chunk_text (py ''aaaa! b! cc!'') 5 = [py ''aaaa.'', py ''b. cc!''] \<and>
   split_sentences (normalise (py ''aaaa! b! cc!'')) = [py ''aaaa.'', py ''b.'', py ''cc!''] \<and>
   length (py ''b. cc!'') = 6"
proof -
  have "chunk_text (py ''aaaa! b! cc!'') 5 = [py ''aaaa.'', py ''b. cc!''] \<and>
    split_sentences (normalise (py ''aaaa! b! cc!'')) = [py ''aaaa.'', py ''b.'', py ''cc!''] \<and>
    length (py ''b. cc!'') = 6"
    by (simp add: chunk_text_def py_def normalise_def split_sentences_def str_split_def
        isspace_def str_split_sep_def str_strip_def ends_with_terminator_def)
  then show ?thesis using long_text_chunks by simp
qed

section \<open>Properties of the silence generator and of the programs\<close>

subsection \<open>The loops\<close>



lemma chunks_loop_quiet:
  "written (fst (chunks_loop e a k s n i chunks tr pcm)) = written tr \<and>
   encoder_runs (fst (chunks_loop e a k s n i chunks tr pcm)) = encoder_runs tr"
  by (induction chunks arbitrary: i tr pcm)
     (simp_all add: Let_def written_def encoder_runs_def split: sum.splits)








subsection \<open>From the loop to the end of the run\<close>









subsection \<open>A failed call of \<open>synthesize\<close> in each program\<close>




subsection \<open>The position of the failed call\<close>

text \<open>
  A position \<open>i\<close> of the list is fixed by the number of calls made before the call for
  it: two positions that both hold an element for which a call is made, with the same
  number of such elements below them, are the same position.
\<close>

lemma filter_take_mono:
  "m \<le> n \<Longrightarrow> length (filter P (take m xs)) \<le> length (filter P (take n xs))"
proof -
  assume "m \<le> n"
  then have "take n xs = take m xs @ take (n - m) (drop m xs)"
    by (metis le_add_diff_inverse take_add)
  then show ?thesis by simp
qed

lemma failing_index_unique:
  assumes i: "i < length xs" and j: "j < length xs"
    and pi: "P (xs ! i)" and pj: "P (xs ! j)"
    and eq: "length (filter P (take i xs)) = length (filter P (take j xs))"
  shows "i = j"
proof -
  have less: "length (filter P (take m xs)) < length (filter P (take n xs))"
    if "m < n" "m < length xs" "P (xs ! m)" for m n
  proof -
    have "length (filter P (take (Suc m) xs)) = Suc (length (filter P (take m xs)))"
      using that by (simp add: take_Suc_conv_app_nth)
    moreover have "length (filter P (take (Suc m) xs)) \<le> length (filter P (take n xs))"
      using that by (intro filter_take_mono) simp
    ultimately show ?thesis by simp
  qed
  show ?thesis
  proof (rule ccontr)
    assume "i \<noteq> j"
    then consider "i < j" | "j < i" by linarith
    then show False
    proof cases
      case 1
      from less [OF 1 i pi] eq show False by simp
    next
      case 2
      from less [OF 2 j pj] eq show False by simp
    qed
  qed
qed

subsection \<open>Evaluating concrete runs\<close>

lemmas run_defs =
  main_def tts_main_def reader_main_def truthy_def value_of_def generate_silence_def
  py_int_def int_times_float_def SAMPLE_RATE_def exact_def bytes_times_def runtime64_def
  transcode_and_print_def pcm_to_ogg_def single_call_def synthesize_def posts_def
  synthesize_request_def tts_synthesize_request_def body_def
  world_def args_of_def segments_args_def text_args_def document_args_def
  two_bytes_def fails_from_def encoder_ok_def tmp_under_def seg_def hi_skip_bye_def
  hi_skip_def hi_hi_def Let_def


lemma written_transcode:
  "written (fst (transcode_and_print e ogg (tr, Inr pcm))) = written tr @ [pcm]"
  by (simp add: transcode_and_print_def pcm_to_ogg_def Let_def written_def
      split: sum.splits prod.splits)

lemma posts_transcode:
  "posts (fst (transcode_and_print e ogg (tr, Inr pcm))) = posts tr"
  by (simp add: transcode_and_print_def pcm_to_ogg_def Let_def posts_def
      split: sum.splits prod.splits)

lemma segments_loop_hi_skip_bye:
  assumes "\<And>req. req_text req = py ''Hi'' \<Longrightarrow> urlopen e 0 req = Inr p0"
    and "\<And>req. req_text req = py ''Bye'' \<Longrightarrow> urlopen e 1 req = Inr p2"
  shows "segments_loop e a k silence 3 0 hi_skip_bye [Mkdtemp d] [] =
      ([Mkdtemp d,
        Post (synthesize_request (py ''Hi'') (py ''a'') (arg_speed a) (arg_lang a) k) (Inr p0),
        Post (synthesize_request (py ''Bye'') (py ''c'') (arg_speed a) (arg_lang a) k) (Inr p2)],
       Inr (p0 @ silence @ p2))"
proof -
  have ne: "py ''Hi'' \<noteq> []" "py ''Bye'' \<noteq> []" "py [] = []"
    by (simp_all add: py_def)
  have r0: "urlopen e 0 (synthesize_request (py ''Hi'') (py ''a'') (arg_speed a) (arg_lang a) k)
      = Inr p0"
    by (rule assms(1)) (simp add: synthesize_request_def body_def)
  have r2: "urlopen e (Suc 0)
      (synthesize_request (py ''Bye'') (py ''c'') (arg_speed a) (arg_lang a) k) = Inr p2"
    using assms(2) by (simp add: synthesize_request_def body_def)
  show ?thesis
    by (simp add: hi_skip_bye_def seg_def Let_def synthesize_def posts_def ne r0 r2)
qed

lemma tts_segments_loop_hi_skip_bye:
  assumes "\<And>req. req_text req = py ''Hi'' \<Longrightarrow> urlopen e 0 req = Inr p0"
    and "\<And>req. req_text req = py ''Bye'' \<Longrightarrow> urlopen e 1 req = Inr p2"
  shows "tts_segments_loop e a k silence 3 0 hi_skip_bye [Mkdtemp d] [] =
      ([Mkdtemp d,
        Post (tts_synthesize_request (py ''Hi'') (py ''a'') (arg_model a) (arg_speed a)
                (arg_lang a) k) (Inr p0),
        Post (tts_synthesize_request (py ''Bye'') (py ''c'') (arg_model a) (arg_speed a)
                (arg_lang a) k) (Inr p2)],
       Inr (p0 @ silence @ p2))"
proof -
  have ne: "py ''Hi'' \<noteq> []" "py ''Bye'' \<noteq> []" "py [] = []"
    by (simp_all add: py_def)
  have r0: "urlopen e 0 (tts_synthesize_request (py ''Hi'') (py ''a'') (arg_model a)
      (arg_speed a) (arg_lang a) k) = Inr p0"
    by (rule assms(1)) (simp add: tts_synthesize_request_def body_def)
  have r2: "urlopen e (Suc 0) (tts_synthesize_request (py ''Bye'') (py ''c'') (arg_model a)
      (arg_speed a) (arg_lang a) k) = Inr p2"
    using assms(2) by (simp add: tts_synthesize_request_def body_def)
  show ?thesis
    by (simp add: hi_skip_bye_def seg_def Let_def synthesize_def posts_def ne r0 r2)
qed

subsection \<open>The document loop interleaves\<close>

lemma chunks_loop_interleaves:
  assumes "n = int (i + length chunks)"
    and "chunks_loop e a k s n i chunks tr pcm = (tr', Inr all_pcm)"
  shows "\<exists>ps. length ps = length chunks \<and> answers tr' = answers tr @ ps \<and>
           all_pcm = pcm @ str_join s ps"
  using assms
proof (induction chunks arbitrary: i tr pcm)
  case Nil
  then show ?case by simp
next
  case (Cons c rest)
  define req where "req = synthesize_request c (arg_voice a) (arg_speed a) (arg_lang a) k"
  show ?case
  proof (cases "synthesize e tr req")
    case (Inl msg)
    then show ?thesis using Cons.prems(2) by (simp add: req_def Let_def)
  next
    case (Inr p)
    let ?tr = "tr @ [Post req (Inr p)]"
    let ?pcm = "pcm @ p @ (if int i < n - 1 then s else [])"
    have "chunks_loop e a k s n (Suc i) rest ?tr ?pcm = (tr', Inr all_pcm)"
      using Cons.prems(2) Inr by (simp add: req_def Let_def)
    moreover have "n = int (Suc i + length rest)"
      using Cons.prems(1) by simp
    ultimately obtain ps where ps: "length ps = length rest" "answers tr' = answers ?tr @ ps"
        "all_pcm = ?pcm @ str_join s ps"
      using Cons.IH by blast
    have a: "answers tr' = answers tr @ (p # ps)"
      using ps(2) by (simp add: answers_def)
    have b: "all_pcm = pcm @ str_join s (p # ps)"
    proof (cases ps)
      case Nil
      then have "rest = []" using ps(1) by simp
      then have "\<not> int i < n - 1" using Cons.prems(1) by simp
      then show ?thesis using ps(3) Nil by simp
    next
      case (Cons q qs)
      then have "rest \<noteq> []" using ps(1) by auto
      then have "int i < n - 1" using Cons.prems(1) by (cases rest) simp_all
      then show ?thesis using ps(3) Cons by simp
    qed
    have "length (p # ps) = length (c # rest)" using ps(1) by simp
    then show ?thesis using a b by blast
  qed
qed

lemma answers_transcode:
  "answers (fst (transcode_and_print e ogg (tr, Inr pcm))) = answers tr"
  by (simp add: transcode_and_print_def pcm_to_ogg_def Let_def answers_def
      split: sum.splits prod.splits)

text \<open>
  In document mode, when \<open>rime_reader.py\<close> or \<open>rime.py\<close> gets as far as writing the
  buffer for the encoder, the buffer is the PCM blocks that the calls returned, one for
  each chunk and in the order of the chunks, joined by the silence: a silence between
  each two neighbours, none before the first block and none after the last.
\<close>

lemma reader_main_interleaves:
  assumes w: "written (fst (reader_main e a)) = [buf]"
  shows "\<exists>contents silence.
      read_document e (value_of (arg_text_file a)) = Inr contents \<and>
      generate_silence (python e) (arg_pause a) = Inr silence \<and>
      length (answers (fst (reader_main e a))) =
        length (chunk_text (str_strip contents) CHUNK_SIZE) \<and>
      buf = str_join silence (answers (fst (reader_main e a)))"
proof -
  define k where "k = value_of (environ_api_key e)"
  define ogg where "ogg = path_join (mkdtemp e (py ''rime_reader_'')) (py ''reading.ogg'')"
  define tr1 where "tr1 = [Read_document (value_of (arg_text_file a))]"
  have key: "truthy (environ_api_key e)"
    using w by (rule_tac ccontr) (simp add: reader_main_def written_def)
  obtain contents where rd: "read_document e (value_of (arg_text_file a)) = Inr contents"
    using w key
    by (cases "read_document e (value_of (arg_text_file a))")
       (simp_all add: reader_main_def written_def Let_def)
  have ne: "str_strip contents \<noteq> []"
    using w key rd
    by (rule_tac ccontr) (simp add: reader_main_def written_def Let_def)
  obtain silence where sil: "generate_silence (python e) (arg_pause a) = Inr silence"
    using w key rd ne
    by (cases "generate_silence (python e) (arg_pause a)")
       (simp_all add: reader_main_def written_def Let_def)
  define chunks where "chunks = chunk_text (str_strip contents) CHUNK_SIZE"
  define L where "L = chunks_loop e a k silence (int (length chunks)) 0 chunks tr1 []"
  have eq: "reader_main e a =
      (case L of
         (tr', Inl out) \<Rightarrow> (tr', out)
       | (tr', Inr all_pcm) \<Rightarrow>
           transcode_and_print e ogg (tr' @ [Mkdtemp (py ''rime_reader_'')], Inr all_pcm))"
    unfolding reader_main_def Let_def k_def ogg_def tr1_def L_def chunks_def
    using key rd ne sil by simp
  obtain trL res where L: "L = (trL, res)" by (cases L)
  have "written (fst L) = written tr1"
    unfolding L_def using chunks_loop_quiet by blast
  moreover have "written tr1 = []"
    by (simp add: tr1_def written_def)
  ultimately have wL: "written trL = []"
    using L by simp
  show ?thesis
  proof (cases res)
    case (Inl out)
    then have "reader_main e a = (trL, out)" using eq L by simp
    then show ?thesis using w wL by simp
  next
    case (Inr all_pcm)
    let ?r = "(trL @ [Mkdtemp (py ''rime_reader_'')], Inr all_pcm :: outcome + byte list)"
    have r: "reader_main e a = transcode_and_print e ogg ?r"
      using eq L Inr by simp
    have "written (fst (reader_main e a)) = written (trL @ [Mkdtemp (py ''rime_reader_'')]) @ [all_pcm]"
      unfolding r by (rule written_transcode)
    then have buf: "buf = all_pcm"
      using w wL by (simp add: written_def)
    have "answers (fst (reader_main e a)) = answers (trL @ [Mkdtemp (py ''rime_reader_'')])"
      unfolding r by (rule answers_transcode)
    then have an: "answers (fst (reader_main e a)) = answers trL"
      by (simp add: answers_def)
    have "chunks_loop e a k silence (int (0 + length chunks)) 0 chunks tr1 [] = (trL, Inr all_pcm)"
      using L Inr by (simp add: L_def)
    from chunks_loop_interleaves [OF refl this] obtain ps where
      "length ps = length chunks" "answers trL = answers tr1 @ ps" "all_pcm = [] @ str_join silence ps"
      by blast
    then have "length (answers trL) = length chunks" "all_pcm = str_join silence (answers trL)"
      by (simp_all add: tr1_def answers_def)
    then show ?thesis
      using rd sil buf an by (simp add: chunks_def)
  qed
qed

lemma main_document_interleaves:
  assumes w: "written (fst (main e a)) = [buf]"
    and mode: "mode_of Rime a = Document"
  shows "\<exists>contents silence.
      read_document e (value_of (arg_text_file a)) = Inr contents \<and>
      generate_silence (python e) (arg_pause a) = Inr silence \<and>
      length (answers (fst (main e a))) =
        length (chunk_text (str_strip contents) CHUNK_SIZE) \<and>
      buf = str_join silence (answers (fst (main e a)))"
proof -
  define k where "k = value_of (environ_api_key e)"
  define ogg where "ogg = path_join (mkdtemp e (py ''rime_'')) (py ''output.ogg'')"
  define tr1 where "tr1 = [Mkdtemp (py ''rime_''), Read_document (value_of (arg_text_file a))]"
  have ns: "\<not> truthy (arg_segments a)" and tf: "truthy (arg_text_file a)"
    using mode by (simp_all split: if_splits)
  have key: "truthy (environ_api_key e)"
    using w tf by (rule_tac ccontr) (simp add: main_def written_def)
  obtain silence where sil: "generate_silence (python e) (arg_pause a) = Inr silence"
    using w key tf
    by (cases "generate_silence (python e) (arg_pause a)")
       (simp_all add: main_def written_def Let_def)
  obtain contents where rd: "read_document e (value_of (arg_text_file a)) = Inr contents"
    using w key tf ns sil
    by (cases "read_document e (value_of (arg_text_file a))")
       (simp_all add: main_def written_def Let_def)
  have ne: "str_strip contents \<noteq> []"
    using w key tf ns sil rd
    by (rule_tac ccontr) (simp add: main_def written_def Let_def)
  define chunks where "chunks = chunk_text (str_strip contents) CHUNK_SIZE"
  define L where "L = chunks_loop e a k silence (int (length chunks)) 0 chunks tr1 []"
  have eq: "main e a = transcode_and_print e ogg L"
    using key tf ns sil rd ne
    by (simp add: main_def Let_def k_def ogg_def tr1_def L_def chunks_def)
  obtain trL res where L: "L = (trL, res)" by (cases L)
  have "written (fst L) = written tr1"
    unfolding L_def using chunks_loop_quiet by blast
  moreover have "written tr1 = []"
    by (simp add: tr1_def written_def)
  ultimately have wL: "written trL = []"
    using L by simp
  show ?thesis
  proof (cases res)
    case (Inl out)
    then have "main e a = (trL, out)" using eq L by (simp add: transcode_and_print_def)
    then show ?thesis using w wL by simp
  next
    case (Inr all_pcm)
    have r: "main e a = transcode_and_print e ogg (trL, Inr all_pcm)"
      using eq L Inr by simp
    have "written (fst (main e a)) = written trL @ [all_pcm]"
      unfolding r by (rule written_transcode)
    then have buf: "buf = all_pcm"
      using w wL by simp
    have an: "answers (fst (main e a)) = answers trL"
      unfolding r by (rule answers_transcode)
    have "chunks_loop e a k silence (int (0 + length chunks)) 0 chunks tr1 [] = (trL, Inr all_pcm)"
      using L Inr by (simp add: L_def)
    from chunks_loop_interleaves [OF refl this] obtain ps where
      "length ps = length chunks" "answers trL = answers tr1 @ ps" "all_pcm = [] @ str_join silence ps"
      by blast
    then have "length (answers trL) = length chunks" "all_pcm = str_join silence (answers trL)"
      by (simp_all add: tr1_def answers_def)
    then show ?thesis
      using rd sil buf an by (simp add: chunks_def)
  qed
qed

subsection \<open>The claims about the silence generator and the programs\<close>







text \<open>
  Claim C10. In the multi-segment loops of \<open>rime.py\<close> and \<open>rime_tts.py\<close>, a segment
  without a \<open>text\<close> key and the same segment with the empty text are handled alike:
  the loop goes on with the next index, and the trace (so the calls made and the messages
  printed) and the buffer are what they were. Wherever such a segment stands in the list,
  the loop over the list with the key missing is the loop over the list with the empty
  text.
\<close>

theorem missing_text_is_skipped:
  "segments_loop e a k s n i (sg\<lparr>seg_text := None\<rparr> # rest) tr pcm =
     segments_loop e a k s n (Suc i) rest tr pcm \<and>
   segments_loop e a k s n i (sg\<lparr>seg_text := Some []\<rparr> # rest) tr pcm =
     segments_loop e a k s n (Suc i) rest tr pcm \<and>
   tts_segments_loop e a k s n i (sg\<lparr>seg_text := None\<rparr> # rest) tr pcm =
     tts_segments_loop e a k s n (Suc i) rest tr pcm \<and>
   tts_segments_loop e a k s n i (sg\<lparr>seg_text := Some []\<rparr> # rest) tr pcm =
     tts_segments_loop e a k s n (Suc i) rest tr pcm \<and>
   segments_loop e a k s n i (before @ sg\<lparr>seg_text := None\<rparr> # rest) tr pcm =
     segments_loop e a k s n i (before @ sg\<lparr>seg_text := Some []\<rparr> # rest) tr pcm \<and>
   tts_segments_loop e a k s n i (before @ sg\<lparr>seg_text := None\<rparr> # rest) tr pcm =
     tts_segments_loop e a k s n i (before @ sg\<lparr>seg_text := Some []\<rparr> # rest) tr pcm"
proof -
  have 1: "segments_loop e a k s n i (before @ sg\<lparr>seg_text := None\<rparr> # rest) tr pcm =
      segments_loop e a k s n i (before @ sg\<lparr>seg_text := Some []\<rparr> # rest) tr pcm"
    by (induction before arbitrary: i tr pcm) (simp_all add: Let_def split: sum.splits)
  have 2: "tts_segments_loop e a k s n i (before @ sg\<lparr>seg_text := None\<rparr> # rest) tr pcm =
      tts_segments_loop e a k s n i (before @ sg\<lparr>seg_text := Some []\<rparr> # rest) tr pcm"
    by (induction before arbitrary: i tr pcm) (simp_all add: Let_def split: sum.splits)
  show ?thesis using 1 2 by simp
qed

text \<open>
  Claim C1, as amended. For the segment list
  \<^verbatim>\<open>[{"text":"Hi","voice":"a"},{"text":"","voice":"b"},{"text":"Bye","voice":"c"}]\<close>
  in multi-segment mode, with both calls answered, \<open>rime.py\<close> and \<open>rime_tts.py\<close> make
  exactly two calls of \<open>synthesize\<close>, for \<open>"Hi"\<close> with voice \<open>a\<close> and for
  \<open>"Bye"\<close> with voice \<open>c\<close>, and the buffer written for the encoder is the first
  answer, one silence, and the second answer: one gap, after index 0, and none for the
  skipped index 1.
\<close>

theorem hi_skip_bye_one_gap:
  assumes key: "truthy (environ_api_key e)"
    and sg: "truthy (arg_segments a)"
    and js: "json_loads e (value_of (arg_segments a)) = Inr hi_skip_bye"
    and sil: "generate_silence (python e) (arg_pause a) = Inr silence"
    and hi: "\<And>req. req_text req = py ''Hi'' \<Longrightarrow> urlopen e 0 req = Inr p0"
    and bye: "\<And>req. req_text req = py ''Bye'' \<Longrightarrow> urlopen e 1 req = Inr p2"
    and prog: "prog = main \<or> prog = tts_main"
  shows "map (\<lambda>(req, res). (req_text req, req_speaker req, res)) (posts (fst (prog e a))) =
           [(py ''Hi'', py ''a'', Inr p0), (py ''Bye'', py ''c'', Inr p2)] \<and>
         written (fst (prog e a)) = [p0 @ silence @ p2]"
proof -
  have len: "int (length hi_skip_bye) = 3"
    by (simp add: hi_skip_bye_def)
  from prog show ?thesis
  proof
    assume p: "prog = main"
    let ?tr = "[Mkdtemp (py ''rime_''),
        Post (synthesize_request (py ''Hi'') (py ''a'') (arg_speed a) (arg_lang a)
                (value_of (environ_api_key e))) (Inr p0),
        Post (synthesize_request (py ''Bye'') (py ''c'') (arg_speed a) (arg_lang a)
                (value_of (environ_api_key e))) (Inr p2)]"
    have m: "main e a =
        transcode_and_print e (path_join (mkdtemp e (py ''rime_'')) (py ''output.ogg''))
          (?tr, Inr (p0 @ silence @ p2))"
      using key sg js sil len
      by (simp add: main_def Let_def segments_loop_hi_skip_bye [OF hi bye])
    have "posts (fst (main e a)) = posts ?tr" "written (fst (main e a)) = written ?tr @ [p0 @ silence @ p2]"
      unfolding m by (rule posts_transcode, rule written_transcode)
    then show ?thesis
      unfolding p by (simp add: posts_def written_def synthesize_request_def body_def)
  next
    assume p: "prog = tts_main"
    let ?tr = "[Mkdtemp (py ''rime_tts_''),
        Post (tts_synthesize_request (py ''Hi'') (py ''a'') (arg_model a) (arg_speed a)
                (arg_lang a) (value_of (environ_api_key e))) (Inr p0),
        Post (tts_synthesize_request (py ''Bye'') (py ''c'') (arg_model a) (arg_speed a)
                (arg_lang a) (value_of (environ_api_key e))) (Inr p2)]"
    have m: "tts_main e a =
        transcode_and_print e (path_join (mkdtemp e (py ''rime_tts_'')) (py ''voice.ogg''))
          (?tr, Inr (p0 @ silence @ p2))"
      using key sg js sil len
      by (simp add: tts_main_def Let_def tts_segments_loop_hi_skip_bye [OF hi bye])
    have "posts (fst (tts_main e a)) = posts ?tr"
      "written (fst (tts_main e a)) = written ?tr @ [p0 @ silence @ p2]"
      unfolding m by (rule posts_transcode, rule written_transcode)
    then show ?thesis
      unfolding p by (simp add: posts_def written_def tts_synthesize_request_def body_def)
  qed
qed


theorem hi_skip_bye_one_gap_witness:
  "map (\<lambda>(req, res). (req_text req, req_speaker req, res))
     (posts (fst (main (world hi_skip_bye two_bytes) segments_args))) =
     [(py ''Hi'', py ''a'', Inr [1, 2]), (py ''Bye'', py ''c'', Inr [1, 3])] \<and>
   written (fst (main (world hi_skip_bye two_bytes) segments_args)) = [[1, 2] @ [0, 0] @ [1, 3]]"
proof -
  let ?e = "world hi_skip_bye two_bytes"
  have 1: "truthy (environ_api_key ?e)"
    by (simp add: world_def truthy_def py_def)
  have 2: "truthy (arg_segments segments_args)"
    by (simp add: segments_args_def args_of_def truthy_def py_def)
  have 3: "json_loads ?e (value_of (arg_segments segments_args)) = Inr hi_skip_bye"
    by (simp add: world_def)
  have 4: "generate_silence (python ?e) (arg_pause segments_args) = Inr [0, 0]"
    by (simp add: run_defs)
  have 5: "\<And>req. req_text req = py ''Hi'' \<Longrightarrow> urlopen ?e 0 req = Inr [1, 2]"
    by (simp add: world_def two_bytes_def py_def)
  have 6: "\<And>req. req_text req = py ''Bye'' \<Longrightarrow> urlopen ?e 1 req = Inr [1, 3]"
    by (simp add: world_def two_bytes_def py_def)
  have 7: "main = main \<or> main = tts_main"
    by simp
  show ?thesis
    by (rule hi_skip_bye_one_gap [OF 1 2 3 4 5 6 7])
qed

text \<open>
  The claim as stated has two gaps in the buffer, one after index 0 and one after the
  skipped index 1. In the run with a silence of two zero bytes and the answers \<open>01 02\<close>
  and \<open>01 03\<close>, both programs hand the encoder \<open>01 02 00 00 01 03\<close>, which holds the
  silence once, and not \<open>01 02 00 00 00 00 01 03\<close>.
\<close>

theorem hi_skip_bye_not_two_gaps:
  "generate_silence runtime64 (arg_pause segments_args) = Inr [0, 0] \<and>
   written (fst (main (world hi_skip_bye two_bytes) segments_args)) = [[1, 2] @ [0, 0] @ [1, 3]] \<and>
   written (fst (main (world hi_skip_bye two_bytes) segments_args)) \<noteq>
     [[1, 2] @ [0, 0] @ [0, 0] @ [1, 3]] \<and>
   written (fst (tts_main (world hi_skip_bye two_bytes) segments_args)) =
     [[1, 2] @ [0, 0] @ [1, 3]] \<and>
   written (fst (tts_main (world hi_skip_bye two_bytes) segments_args)) \<noteq>
     [[1, 2] @ [0, 0] @ [0, 0] @ [1, 3]]"
  by (simp add: run_defs written_def py_def)

text \<open>
  Claim C2. The claim is that N synthesized blocks are interleaved with exactly N - 1
  silences and that no silence trails. The multi-segment loops decide the gap by
  \<open>i < len(segments) - 1\<close>, the index in the list as given, and skip a segment with
  empty text before that test. When the last segments of the list are skipped, the last
  synthesized block is therefore followed by a silence (the document loop, where no
  chunk is skipped, does interleave, as shown above). For
  \<^verbatim>\<open>[{"text":"Hi","voice":"a"},{"text":"","voice":"b"}]\<close> one call is made, N is 1, and
  the buffer handed to the encoder is the answer \<open>01 02\<close> followed by the silence
  \<open>00 00\<close>.
\<close>

theorem trailing_skip_leaves_trailing_silence:
  "map (\<lambda>(req, res). req_text req)
     (posts (fst (main (world hi_skip two_bytes) segments_args))) = [py ''Hi''] \<and>
   written (fst (main (world hi_skip two_bytes) segments_args)) = [[1, 2] @ [0, 0]] \<and>
   map (\<lambda>(req, res). req_text req)
     (posts (fst (tts_main (world hi_skip two_bytes) segments_args))) = [py ''Hi''] \<and>
   written (fst (tts_main (world hi_skip two_bytes) segments_args)) = [[1, 2] @ [0, 0]]"
  by (simp add: run_defs written_def py_def)




end
